theory Spec2Isabelle
  imports Main "HOL-Library.Word"
begin

section \<open>JavaScript strings\<close>

text \<open>
  A JavaScript string is a sequence of UTF-16 code units; \<open>length\<close> counts code units,
  as \<^verbatim>\<open>.length\<close> does. String literals of the source that are ASCII are written with
  \<open>js\<close>; the Arabic placeholders are given by their code units.
\<close>

type_synonym jsstring = "16 word list"

definition js :: "string \<Rightarrow> jsstring" where
  "js s = map (\<lambda>c. of_nat (of_char c)) s"

text \<open>
  \<^verbatim>\<open>String.prototype.toUpperCase\<close> is a table of the runtime, not code of the repository.
  The table below is the Unicode mapping for Basic Latin and the Latin-1 Supplement, and
  for every other code unit whose upper case contains a Basic Latin letter (U+0131,
  U+0149, U+017F, U+01F0, U+1E96 to U+1E9A, U+FB00 to U+FB06). Every other code unit is
  left unchanged: its upper case has no Basic Latin letter, so whether and where one of
  the markers (which are Basic Latin) occurs in an upper-cased text is not affected,
  except that the position is not shifted by the few Greek and Armenian letters whose
  upper case is longer than the letter. For the caseless scripts (Arabic among them) the
  table is exact.
\<close>

definition upper_unit :: "16 word \<Rightarrow> jsstring" where
  "upper_unit c =
     (if 0x61 \<le> c \<and> c \<le> 0x7A then [c - 0x20]
      else if c = 0xB5 then [0x39C]
      else if c = 0xDF then [0x53, 0x53]
      else if 0xE0 \<le> c \<and> c \<le> 0xFE \<and> c \<noteq> 0xF7 then [c - 0x20]
      else if c = 0xFF then [0x178]
      else if c = 0x131 then [0x49]
      else if c = 0x149 then [0x2BC, 0x4E]
      else if c = 0x17F then [0x53]
      else if c = 0x1F0 then [0x4A, 0x30C]
      else if c = 0x1E96 then [0x48, 0x331]
      else if c = 0x1E97 then [0x54, 0x308]
      else if c = 0x1E98 then [0x57, 0x30A]
      else if c = 0x1E99 then [0x59, 0x30A]
      else if c = 0x1E9A then [0x41, 0x2BE]
      else if c = 0xFB00 then [0x46, 0x46]
      else if c = 0xFB01 then [0x46, 0x49]
      else if c = 0xFB02 then [0x46, 0x4C]
      else if c = 0xFB03 then [0x46, 0x46, 0x49]
      else if c = 0xFB04 then [0x46, 0x46, 0x4C]
      else if c = 0xFB05 then [0x53, 0x54]
      else if c = 0xFB06 then [0x53, 0x54]
      else [c])"

definition toUpperCase :: "jsstring \<Rightarrow> jsstring" where
  "toUpperCase s = concat (map upper_unit s)"

text \<open>\<^verbatim>\<open>trim\<close> removes WhiteSpace and LineTerminator code units at both ends.\<close>

definition is_js_space :: "16 word \<Rightarrow> bool" where
  "is_js_space c =
     (c = 0x09 \<or> c = 0x0A \<or> c = 0x0B \<or> c = 0x0C \<or> c = 0x0D \<or> c = 0x20 \<or> c = 0xA0
      \<or> c = 0x1680 \<or> (0x2000 \<le> c \<and> c \<le> 0x200A) \<or> c = 0x2028 \<or> c = 0x2029
      \<or> c = 0x202F \<or> c = 0x205F \<or> c = 0x3000 \<or> c = 0xFEFF)"

definition trim :: "jsstring \<Rightarrow> jsstring" where
  "trim s = rev (dropWhile is_js_space (rev (dropWhile is_js_space s)))"

definition startsWith :: "jsstring \<Rightarrow> jsstring \<Rightarrow> bool" where
  "startsWith s p = (take (length p) s = p)"

text \<open>\<^verbatim>\<open>indexOf\<close>: the first position at which \<open>m\<close> occurs, \<open>None\<close> for \<open>-1\<close>.\<close>

fun indexOf :: "jsstring \<Rightarrow> jsstring \<Rightarrow> nat option" where
  "indexOf [] m = (if m = [] then Some 0 else None)"
| "indexOf (c # cs) m =
     (if startsWith (c # cs) m then Some 0 else map_option Suc (indexOf cs m))"

definition includes_str :: "jsstring \<Rightarrow> jsstring \<Rightarrow> bool" where
  "includes_str s m = (indexOf s m \<noteq> None)"

text \<open>\<^verbatim>\<open>slice(start)\<close> with a non-negative start.\<close>

definition slice :: "jsstring \<Rightarrow> nat \<Rightarrow> jsstring" where
  "slice s i = drop i s"

section \<open>JSON values, \<^verbatim>\<open>JSON.parse\<close> and \<^verbatim>\<open>JSON.stringify\<close>\<close>

text \<open>
  The values \<^verbatim>\<open>JSON.parse\<close> returns. A number \<open>JNum m e\<close> is the decimal \<open>m * 10 ^ e\<close>
  with \<open>m\<close> free of trailing zeros; the rounding of the source's IEEE-754 doubles (more
  than 17 significant digits, exponents beyond 308) is not modelled. An object is the list
  of its own properties in enumeration order.
\<close>

datatype json =
    JNull
  | JBool bool
  | JNum int int
  | JStr jsstring
  | JArr "json list"
  | JObj "(jsstring \<times> json) list"

subsection \<open>Numbers\<close>

definition is_digit :: "16 word \<Rightarrow> bool" where
  "is_digit c = (0x30 \<le> c \<and> c \<le> 0x39)"

definition digit_val :: "16 word \<Rightarrow> int" where
  "digit_val c = uint c - 0x30"

definition digits_val :: "jsstring \<Rightarrow> int" where
  "digits_val ds = foldl (\<lambda>a c. 10 * a + digit_val c) 0 ds"

definition digit_unit :: "int \<Rightarrow> 16 word" where
  "digit_unit d = of_int (0x30 + d)"

text \<open>The decimal digits of a non-negative integer.\<close>

function digits :: "int \<Rightarrow> jsstring" where
  "digits n = (if n < 10 then [digit_unit n] else digits (n div 10) @ [digit_unit (n mod 10)])"
  by pat_completeness auto
termination
  by (relation "measure nat") auto

declare digits.simps [simp del]

text \<open>
  The value of a number lexeme: integer digits \<open>ip\<close>, fraction digits \<open>fp\<close>, exponent \<open>ex\<close>.
  Leading and trailing zeros of the significand are removed, so that equal numbers have
  one representation; \<open>-0\<close> is \<open>0\<close>.
\<close>

definition mk_number :: "bool \<Rightarrow> jsstring \<Rightarrow> jsstring \<Rightarrow> int \<Rightarrow> json" where
  "mk_number neg ip fp ex =
     (let ds = ip @ fp;
          tz = length (takeWhile (\<lambda>c. c = 0x30) (rev ds));
          sig = take (length ds - tz) ds;
          m = digits_val sig
      in if m = 0 then JNum 0 0
         else JNum (if neg then - m else m) (ex - int (length fp) + int tz))"

definition parse_exponent :: "jsstring \<Rightarrow> (int \<times> jsstring) option" where
  "parse_exponent s =
     (case s of
        [] \<Rightarrow> Some (0, s)
      | c # r \<Rightarrow>
          if c = 0x65 \<or> c = 0x45 then
            (let (neg, r1) =
                   (case r of
                      [] \<Rightarrow> (False, r)
                    | d # r' \<Rightarrow> if d = 0x2D then (True, r') else if d = 0x2B then (False, r')
                               else (False, r));
                 ed = takeWhile is_digit r1
             in if ed = [] then None
                else Some ((if neg then - digits_val ed else digits_val ed),
                           dropWhile is_digit r1))
          else Some (0, s))"

definition parse_fraction :: "jsstring \<Rightarrow> (jsstring \<times> jsstring) option" where
  "parse_fraction s =
     (case s of
        [] \<Rightarrow> Some ([], s)
      | c # r \<Rightarrow>
          if c = 0x2E then
            (let fp = takeWhile is_digit r
             in if fp = [] then None else Some (fp, dropWhile is_digit r))
          else Some ([], s))"

definition parse_number :: "jsstring \<Rightarrow> (json \<times> jsstring) option" where
  "parse_number s =
     (let (neg, s1) = (case s of [] \<Rightarrow> (False, s)
                       | c # r \<Rightarrow> if c = 0x2D then (True, r) else (False, s));
          ip = takeWhile is_digit s1
      in if ip = [] \<or> (1 < length ip \<and> hd ip = 0x30) then None
         else (case parse_fraction (dropWhile is_digit s1) of
                 None \<Rightarrow> None
               | Some (fp, s2) \<Rightarrow>
                   (case parse_exponent s2 of
                      None \<Rightarrow> None
                    | Some (ex, s3) \<Rightarrow> Some (mk_number neg ip fp ex, s3))))"

text \<open>\<^verbatim>\<open>Number::toString\<close> on the decimal \<open>m * 10 ^ e\<close>.\<close>

definition exponent_text :: "int \<Rightarrow> jsstring" where
  "exponent_text x = (if x < 0 then js ''-'' else js ''+'') @ digits \<bar>x\<bar>"

definition number_text :: "int \<Rightarrow> int \<Rightarrow> jsstring" where
  "number_text m e =
     (if m = 0 then js ''0''
      else
        (let s = digits \<bar>m\<bar>;
             k = int (length s);
             n = k + e;
             body =
               (if k \<le> n \<and> n \<le> 21 then s @ replicate (nat (n - k)) 0x30
                else if 0 < n \<and> n \<le> 21 then take (nat n) s @ js ''.'' @ drop (nat n) s
                else if - 6 < n \<and> n \<le> 0 then js ''0.'' @ replicate (nat (- n)) 0x30 @ s
                else if k = 1 then s @ js ''e'' @ exponent_text (n - 1)
                else take 1 s @ js ''.'' @ drop 1 s @ js ''e'' @ exponent_text (n - 1))
         in (if m < 0 then js ''-'' else []) @ body))"

subsection \<open>String literals\<close>

definition hex_val :: "16 word \<Rightarrow> nat option" where
  "hex_val c =
     (if 0x30 \<le> c \<and> c \<le> 0x39 then Some (unat c - 0x30)
      else if 0x41 \<le> c \<and> c \<le> 0x46 then Some (unat c - 0x37)
      else if 0x61 \<le> c \<and> c \<le> 0x66 then Some (unat c - 0x57)
      else None)"

definition hex4 :: "16 word \<Rightarrow> 16 word \<Rightarrow> 16 word \<Rightarrow> 16 word \<Rightarrow> 16 word option" where
  "hex4 a b c d =
     (case (hex_val a, hex_val b, hex_val c, hex_val d) of
        (Some x, Some y, Some z, Some w) \<Rightarrow> Some (of_nat (((x * 16 + y) * 16 + z) * 16 + w))
      | _ \<Rightarrow> None)"

definition unescape :: "16 word \<Rightarrow> 16 word option" where
  "unescape c =
     (if c = 0x22 then Some 0x22 else if c = 0x5C then Some 0x5C
      else if c = 0x2F then Some 0x2F else if c = 0x62 then Some 0x08
      else if c = 0x66 then Some 0x0C else if c = 0x6E then Some 0x0A
      else if c = 0x72 then Some 0x0D else if c = 0x74 then Some 0x09
      else None)"

text \<open>The characters of a string literal after its opening quote, up to the closing one.\<close>

fun parse_chars :: "jsstring \<Rightarrow> (jsstring \<times> jsstring) option" where
  "parse_chars [] = None"
| "parse_chars (c # cs) =
     (if c = 0x22 then Some ([], cs)
      else if c = 0x5C then
        (case cs of
           [] \<Rightarrow> None
         | x # r \<Rightarrow>
             if x = 0x75 then
               (case r of
                  a # b # c' # d # r' \<Rightarrow>
                    (case hex4 a b c' d of
                       None \<Rightarrow> None
                     | Some u \<Rightarrow> map_option (\<lambda>(s, t). (u # s, t)) (parse_chars r'))
                | _ \<Rightarrow> None)
             else
               (case unescape x of
                  None \<Rightarrow> None
                | Some u \<Rightarrow> map_option (\<lambda>(s, t). (u # s, t)) (parse_chars r)))
      else if c < 0x20 then None
      else map_option (\<lambda>(s, t). (c # s, t)) (parse_chars cs))"

definition hex_unit :: "nat \<Rightarrow> 16 word" where
  "hex_unit d = (if d < 10 then of_nat (0x30 + d) else of_nat (0x57 + d))"

definition unicode_escape :: "16 word \<Rightarrow> jsstring" where
  "unicode_escape c =
     [0x5C, 0x75, hex_unit (unat c div 4096), hex_unit (unat c div 256 mod 16),
                   hex_unit (unat c div 16 mod 16), hex_unit (unat c mod 16)]"

definition quote_unit :: "16 word \<Rightarrow> jsstring" where
  "quote_unit c =
     (if c = 0x08 then [0x5C, 0x62] else if c = 0x09 then [0x5C, 0x74]
      else if c = 0x0A then [0x5C, 0x6E] else if c = 0x0C then [0x5C, 0x66]
      else if c = 0x0D then [0x5C, 0x72] else if c = 0x22 then [0x5C, 0x22]
      else if c = 0x5C then [0x5C, 0x5C]
      else if c < 0x20 then unicode_escape c
      else [c])"

definition is_high :: "16 word \<Rightarrow> bool" where
  "is_high c = (0xD800 \<le> c \<and> c \<le> 0xDBFF)"

definition is_low :: "16 word \<Rightarrow> bool" where
  "is_low c = (0xDC00 \<le> c \<and> c \<le> 0xDFFF)"

text \<open>\<^verbatim>\<open>QuoteJSONString\<close> without the enclosing quotes: a surrogate that is not part of a
  pair is written as an escape.\<close>

fun quote_body :: "jsstring \<Rightarrow> jsstring" where
  "quote_body [] = []"
| "quote_body [c] = (if is_high c \<or> is_low c then unicode_escape c else quote_unit c)"
| "quote_body (c # d # r) =
     (if is_high c then
        (if is_low d then c # d # quote_body r else unicode_escape c @ quote_body (d # r))
      else if is_low c then unicode_escape c @ quote_body (d # r)
      else quote_unit c @ quote_body (d # r))"

definition quote :: "jsstring \<Rightarrow> jsstring" where
  "quote s = [0x22] @ quote_body s @ [0x22]"

subsection \<open>Objects\<close>

text \<open>
  A property key that is an array index (a canonical decimal numeral below \<open>2^32 - 1\<close>)
  is enumerated before every other key, in ascending order; the other keys follow in
  the order of their creation. Assigning to an existing key keeps its place.
\<close>

definition array_index :: "jsstring \<Rightarrow> int option" where
  "array_index k =
     (if k \<noteq> [] \<and> list_all is_digit k \<and> (k = [0x30] \<or> hd k \<noteq> 0x30)
         \<and> digits_val k < 4294967295
      then Some (digits_val k) else None)"

fun insert_index :: "int \<Rightarrow> jsstring \<Rightarrow> json \<Rightarrow> (jsstring \<times> json) list \<Rightarrow> (jsstring \<times> json) list" where
  "insert_index i k v [] = [(k, v)]"
| "insert_index i k v ((k', v') # r) =
     (case array_index k' of
        None \<Rightarrow> (k, v) # (k', v') # r
      | Some j \<Rightarrow> if j < i then (k', v') # insert_index i k v r else (k, v) # (k', v') # r)"

definition obj_put :: "jsstring \<Rightarrow> json \<Rightarrow> (jsstring \<times> json) list \<Rightarrow> (jsstring \<times> json) list" where
  "obj_put k v kvs =
     (if k \<in> fst ` set kvs then map (\<lambda>(k', v'). if k' = k then (k', v) else (k', v')) kvs
      else (case array_index k of
              None \<Rightarrow> kvs @ [(k, v)]
            | Some i \<Rightarrow> insert_index i k v kvs))"

subsection \<open>\<^verbatim>\<open>JSON.parse\<close>\<close>

definition is_ws :: "16 word \<Rightarrow> bool" where
  "is_ws c = (c = 0x20 \<or> c = 0x09 \<or> c = 0x0A \<or> c = 0x0D)"

definition skip_ws :: "jsstring \<Rightarrow> jsstring" where
  "skip_ws s = dropWhile is_ws s"

text \<open>
  A recursive-descent parser. The first argument bounds the number of nested and
  successive calls; \<open>JSON_parse\<close> supplies more than any text can use: a larger bound
  never changes the result (lemma \<open>JSON_parse_fuel\<close>).
\<close>

fun parse_value :: "nat \<Rightarrow> jsstring \<Rightarrow> (json \<times> jsstring) option"
  and parse_elements :: "nat \<Rightarrow> json list \<Rightarrow> jsstring \<Rightarrow> (json \<times> jsstring) option"
  and parse_members :: "nat \<Rightarrow> (jsstring \<times> json) list \<Rightarrow> jsstring \<Rightarrow> (json \<times> jsstring) option"
where
  "parse_value 0 s = None"
| "parse_value (Suc n) s =
     (case skip_ws s of
        [] \<Rightarrow> None
      | c # r \<Rightarrow>
          if c = 0x7B then
            (case skip_ws r of
               [] \<Rightarrow> None
             | c2 # r2 \<Rightarrow> if c2 = 0x7D then Some (JObj [], r2) else parse_members n [] (c2 # r2))
          else if c = 0x5B then
            (case skip_ws r of
               [] \<Rightarrow> None
             | c2 # r2 \<Rightarrow> if c2 = 0x5D then Some (JArr [], r2) else parse_elements n [] (c2 # r2))
          else if c = 0x22 then map_option (\<lambda>(t, r'). (JStr t, r')) (parse_chars r)
          else if startsWith (c # r) (js ''true'') then Some (JBool True, drop 4 (c # r))
          else if startsWith (c # r) (js ''false'') then Some (JBool False, drop 5 (c # r))
          else if startsWith (c # r) (js ''null'') then Some (JNull, drop 4 (c # r))
          else parse_number (c # r))"
| "parse_elements 0 acc s = None"
| "parse_elements (Suc n) acc s =
     (case parse_value n s of
        None \<Rightarrow> None
      | Some (v, r) \<Rightarrow>
          (case skip_ws r of
             [] \<Rightarrow> None
           | c # r' \<Rightarrow>
               if c = 0x2C then parse_elements n (acc @ [v]) r'
               else if c = 0x5D then Some (JArr (acc @ [v]), r')
               else None))"
| "parse_members 0 acc s = None"
| "parse_members (Suc n) acc s =
     (case skip_ws s of
        [] \<Rightarrow> None
      | q # r \<Rightarrow>
          if q \<noteq> 0x22 then None
          else
            (case parse_chars r of
               None \<Rightarrow> None
             | Some (k, r1) \<Rightarrow>
                 (case skip_ws r1 of
                    [] \<Rightarrow> None
                  | c # r2 \<Rightarrow>
                      if c \<noteq> 0x3A then None
                      else
                        (case parse_value n r2 of
                           None \<Rightarrow> None
                         | Some (v, r3) \<Rightarrow>
                             (case skip_ws r3 of
                                [] \<Rightarrow> None
                              | c' # r4 \<Rightarrow>
                                  if c' = 0x2C then parse_members n (obj_put k v acc) r4
                                  else if c' = 0x7D then Some (JObj (obj_put k v acc), r4)
                                  else None)))))"

text \<open>\<open>None\<close> is the \<^verbatim>\<open>SyntaxError\<close> that \<^verbatim>\<open>JSON.parse\<close> throws.\<close>

definition JSON_parse :: "jsstring \<Rightarrow> json option" where
  "JSON_parse s =
     (case parse_value (2 * length s + 2) s of
        None \<Rightarrow> None
      | Some (v, r) \<Rightarrow> if skip_ws r = [] then Some v else None)"

subsection \<open>\<^verbatim>\<open>JSON.stringify\<close>\<close>

text \<open>
  \<^verbatim>\<open>SerializeJSONProperty\<close> with its \<open>gap\<close> and current \<open>indent\<close>: with an empty gap the
  parts are joined by a comma, otherwise each part is on a line of its own.
\<close>

fun ser :: "jsstring \<Rightarrow> jsstring \<Rightarrow> json \<Rightarrow> jsstring"
  and ser_elements :: "jsstring \<Rightarrow> jsstring \<Rightarrow> json list \<Rightarrow> jsstring"
  and ser_members :: "jsstring \<Rightarrow> jsstring \<Rightarrow> (jsstring \<times> json) list \<Rightarrow> jsstring"
where
  "ser gap ind JNull = js ''null''"
| "ser gap ind (JBool b) = (if b then js ''true'' else js ''false'')"
| "ser gap ind (JNum m e) = number_text m e"
| "ser gap ind (JStr s) = quote s"
| "ser gap ind (JArr []) = js ''[]''"
| "ser gap ind (JArr (x # xs)) =
     (if gap = [] then js ''['' @ ser_elements gap (ind @ gap) (x # xs) @ js '']''
      else js ''['' @ [0x0A] @ ind @ gap @ ser_elements gap (ind @ gap) (x # xs)
           @ [0x0A] @ ind @ js '']'')"
| "ser gap ind (JObj []) = js ''{}''"
| "ser gap ind (JObj (p # ps)) =
     (if gap = [] then js ''{'' @ ser_members gap (ind @ gap) (p # ps) @ js ''}''
      else js ''{'' @ [0x0A] @ ind @ gap @ ser_members gap (ind @ gap) (p # ps)
           @ [0x0A] @ ind @ js ''}'')"
| "ser_elements gap ind [] = []"
| "ser_elements gap ind [x] = ser gap ind x"
| "ser_elements gap ind (x # y # ys) =
     ser gap ind x @ (if gap = [] then js '','' else js '','' @ [0x0A] @ ind)
     @ ser_elements gap ind (y # ys)"
| "ser_members gap ind [] = []"
| "ser_members gap ind [(k, v)] =
     quote k @ (if gap = [] then js '':'' else js '': '') @ ser gap ind v"
| "ser_members gap ind ((k, v) # q # qs) =
     quote k @ (if gap = [] then js '':'' else js '': '') @ ser gap ind v
     @ (if gap = [] then js '','' else js '','' @ [0x0A] @ ind)
     @ ser_members gap ind (q # qs)"

text \<open>\<^verbatim>\<open>JSON.stringify(v, null, space)\<close>: the gap is \<open>space\<close> blanks, at most ten.\<close>

definition JSON_stringify :: "nat \<Rightarrow> json \<Rightarrow> jsstring" where
  "JSON_stringify space v = ser (replicate (min space 10) 0x20) [] v"


subsection \<open>The values \<^verbatim>\<open>JSON.parse\<close> returns\<close>




section \<open>The heuristic merger\<close>

record parts =
  script :: jsstring
  video :: jsstring
  general :: jsstring

definition markers :: "jsstring list" where
  "markers = [js ''SCRIPT:'', js ''VIDEO:'', js ''ASSETS:'', js ''TRANSCRIPT:'']"

text \<open>The body of the loop of \<^verbatim>\<open>extractByMarker\<close> for one marker \<open>m\<close>.\<close>

definition extract_marker :: "jsstring \<Rightarrow> parts \<Rightarrow> jsstring \<Rightarrow> parts" where
  "extract_marker txt p m =
     (if includes_str (toUpperCase txt) m then
        (case indexOf (toUpperCase txt) m of
           None \<Rightarrow> p
         | Some idx \<Rightarrow>
             (let segment = trim (slice txt (idx + length m))
              in if startsWith m (js ''SCRIPT'') then p\<lparr>script := script p @ [0x0A] @ segment\<rparr>
                 else if startsWith m (js ''VIDEO'') then p\<lparr>video := video p @ [0x0A] @ segment\<rparr>
                 else p\<lparr>general := general p @ [0x0A] @ segment\<rparr>))
      else p)"

definition extractByMarker :: "jsstring \<Rightarrow> parts \<Rightarrow> parts" where
  "extractByMarker txt p = foldl (extract_marker txt) p markers"

text \<open>Whether the test of the loop succeeds for at least one marker.\<close>

definition has_marker :: "jsstring \<Rightarrow> bool" where
  "has_marker txt = list_ex (\<lambda>m. includes_str (toUpperCase txt) m) markers"

definition no_reply :: jsstring where
  "no_reply = js ''(no reply)''"

text \<open>The result when no marker was found: both replies and the longer one.\<close>

definition longest_wins :: "jsstring \<Rightarrow> jsstring \<Rightarrow> jsstring" where
  "longest_wins geminiText openaiText =
     (let prefer = (if length openaiText \<ge> length geminiText then openaiText else geminiText)
      in js ''--Merged result (heuristic)--\<newline>\<newline>[From Gemini]\<newline>''
         @ (if geminiText = [] then no_reply else geminiText)
         @ js ''\<newline>\<newline>[From OpenAI]\<newline>''
         @ (if openaiText = [] then no_reply else openaiText)
         @ js ''\<newline>\<newline>[Preferred]\<newline>'' @ prefer @ js ''\<newline>'')"

text \<open>The result built from the sections that are not empty.\<close>

definition build_sections :: "parts \<Rightarrow> jsstring" where
  "build_sections p =
     js ''--Merged Result (heuristic)--\<newline>''
     @ (if script p \<noteq> [] then js ''\<newline>== Script ==\<newline>'' @ script p @ js ''\<newline>'' else [])
     @ (if video p \<noteq> [] then
          js ''\<newline>== Video Instructions / Assets ==\<newline>'' @ video p @ js ''\<newline>''
        else [])
     @ (if general p \<noteq> [] then js ''\<newline>== Other ==\<newline>'' @ general p @ js ''\<newline>'' else [])"

text \<open>The part of \<^verbatim>\<open>heuristicMerge\<close> after its \<^verbatim>\<open>try\<close> block.\<close>

definition marker_merge :: "jsstring \<Rightarrow> jsstring \<Rightarrow> jsstring" where
  "marker_merge geminiText openaiText =
     (let p = extractByMarker openaiText
                (extractByMarker geminiText \<lparr>script = [], video = [], general = []\<rparr>)
      in if script p = [] \<and> video p = [] \<and> general p = []
         then longest_wins geminiText openaiText
         else build_sections p)"

definition merged_document :: "json \<Rightarrow> json \<Rightarrow> json" where
  "merged_document gjson ojson =
     JObj [(js ''merged'', JObj [(js ''gemini'', gjson), (js ''openai'', ojson)])]"

text \<open>
  \<^verbatim>\<open>heuristicMerge(geminiText, openaiText)\<close> on two strings. A \<^verbatim>\<open>SyntaxError\<close> of either
  \<^verbatim>\<open>JSON.parse\<close> leaves the \<^verbatim>\<open>try\<close> block through the empty \<^verbatim>\<open>catch\<close>.
\<close>

definition heuristicMerge :: "jsstring \<Rightarrow> jsstring \<Rightarrow> jsstring" where
  "heuristicMerge geminiText openaiText =
     (case JSON_parse geminiText of
        None \<Rightarrow> marker_merge geminiText openaiText
      | Some gjson \<Rightarrow>
          (case JSON_parse openaiText of
             None \<Rightarrow> marker_merge geminiText openaiText
           | Some ojson \<Rightarrow> JSON_stringify 2 (merged_document gjson ojson)))"

section \<open>Environment, network and provider results\<close>

text \<open>
  \<^verbatim>\<open>process.env\<close>: a variable is a string or undefined (\<open>None\<close>). A credential counts
  as configured when its variable is truthy, that is, set and not empty.
\<close>

record env =
  GEMINI_API_KEY :: "jsstring option"
  OPENAI_API_KEY :: "jsstring option"

definition truthy_str :: "jsstring option \<Rightarrow> bool" where
  "truthy_str v = (case v of None \<Rightarrow> False | Some s \<Rightarrow> s \<noteq> [])"

fun truthy :: "json \<Rightarrow> bool" where
  "truthy JNull = False"
| "truthy (JBool b) = b"
| "truthy (JNum m e) = (m \<noteq> 0)"
| "truthy (JStr s) = (s \<noteq> [])"
| "truthy (JArr xs) = True"
| "truthy (JObj kvs) = True"

definition truthy_opt :: "json option \<Rightarrow> bool" where
  "truthy_opt v = (case v of None \<Rightarrow> False | Some j \<Rightarrow> truthy j)"

text \<open>
  Optional chaining: \<open>get_prop v name\<close> is \<^verbatim>\<open>v?.name\<close> and \<open>first v\<close> is \<^verbatim>\<open>v?.[0]\<close>, with
  \<open>None\<close> for undefined.
\<close>

definition get_prop :: "json option \<Rightarrow> jsstring \<Rightarrow> json option" where
  "get_prop v name = (case v of Some (JObj kvs) \<Rightarrow> map_of kvs name | _ \<Rightarrow> None)"

definition first :: "json option \<Rightarrow> json option" where
  "first v =
     (case v of
        Some (JArr (x # xs)) \<Rightarrow> Some x
      | Some (JStr (c # cs)) \<Rightarrow> Some (JStr [c])
      | Some (JObj kvs) \<Rightarrow> map_of kvs (js ''0'')
      | _ \<Rightarrow> None)"

text \<open>
  The upstream interfaces type the reply field as a string. A field of another type is
  read as undefined; for \<^verbatim>\<open>null\<close>, \<^verbatim>\<open>false\<close> and \<^verbatim>\<open>0\<close> the source takes the same
  branches as for undefined, since all of them are falsy.
\<close>

definition as_text :: "json option \<Rightarrow> jsstring option" where
  "as_text v = (case v of Some (JStr s) \<Rightarrow> Some s | _ \<Rightarrow> None)"

text \<open>
  The requests the handler can send with \<^verbatim>\<open>axios.post\<close>: the Gemini endpoint with the
  prompt and the \<^verbatim>\<open>key\<close> parameter, and the chat-completions endpoint with one user
  message and the bearer token. The message of the synthesizer is the fixed template
  filled with the two replies and the user's prompt; it is kept as these three values.
\<close>

datatype message =
    UserPrompt "json option"
  | SynthPrompt jsstring jsstring "json option"

datatype request =
    GeminiGenerate "json option" "jsstring option"
  | ChatCompletion message jsstring

text \<open>
  What a request comes back with: \<open>Resolved d\<close> when the call succeeds with payload \<open>d\<close>
  (\<^verbatim>\<open>res.data\<close>), \<open>Rejected x\<close> when \<^verbatim>\<open>axios.post\<close> throws, \<open>x\<close> being
  \<^verbatim>\<open>err?.response?.data || err.message\<close>. The network is any function of the request;
  every function below returns the list of the requests it has sent next to its result.
\<close>

datatype outcome = Resolved json | Rejected json

type_synonym network = "request \<Rightarrow> outcome"

record ProviderResult =
  r_ok :: bool
  r_text :: "jsstring option"
  r_raw :: "json option"
  r_error :: "json option"

definition failure :: "json \<Rightarrow> ProviderResult" where
  "failure x = \<lparr>r_ok = False, r_text = None, r_raw = None, r_error = Some x\<rparr>"

section \<open>The provider adapters and the synthesizer\<close>

definition callGemini :: "env \<Rightarrow> network \<Rightarrow> json option \<Rightarrow> ProviderResult \<times> request list" where
  "callGemini e net prompt =
     (let rq = GeminiGenerate prompt (GEMINI_API_KEY e)
      in (case net rq of
            Resolved raw \<Rightarrow>
              (let candidate =
                     as_text (get_prop (first (get_prop (get_prop (first (get_prop (Some raw) (js ''candidates'')))
                                (js ''content'')) (js ''parts''))) (js ''text''))
               in if truthy_str candidate
                  then \<lparr>r_ok = True, r_text = candidate, r_raw = Some raw, r_error = None\<rparr>
                  else \<lparr>r_ok = True, r_text = Some (JSON_stringify 0 raw), r_raw = Some raw,
                        r_error = None\<rparr>)
          | Rejected x \<Rightarrow> failure x,
          [rq]))"

definition key_missing :: ProviderResult where
  "key_missing = failure (JStr (js ''OPENAI_API_KEY missing''))"

definition callOpenAI :: "env \<Rightarrow> network \<Rightarrow> json option \<Rightarrow> ProviderResult \<times> request list" where
  "callOpenAI e net prompt =
     (case OPENAI_API_KEY e of
        None \<Rightarrow> (key_missing, [])
      | Some k \<Rightarrow>
          if k = [] then (key_missing, [])
          else
            (let rq = ChatCompletion (UserPrompt prompt) k
             in (case net rq of
                   Resolved d \<Rightarrow>
                     \<lparr>r_ok = True,
                      r_text = as_text (get_prop (get_prop (first (get_prop (Some d) (js ''choices'')))
                                 (js ''message'')) (js ''content'')),
                      r_raw = Some d, r_error = None\<rparr>
                 | Rejected x \<Rightarrow> failure x,
                 [rq])))"

definition synthesizeWithOpenAI ::
    "env \<Rightarrow> network \<Rightarrow> jsstring \<Rightarrow> jsstring \<Rightarrow> json option \<Rightarrow> ProviderResult \<times> request list" where
  "synthesizeWithOpenAI e net geminiText openaiText userPrompt =
     (case OPENAI_API_KEY e of
        None \<Rightarrow> (key_missing, [])
      | Some k \<Rightarrow>
          if k = [] then (key_missing, [])
          else
            (let rq = ChatCompletion (SynthPrompt geminiText openaiText userPrompt) k
             in (case net rq of
                   Resolved d \<Rightarrow>
                     \<lparr>r_ok = True,
                      r_text = as_text (get_prop (get_prop (first (get_prop (Some d) (js ''choices'')))
                                 (js ''message'')) (js ''content'')),
                      r_raw = None, r_error = None\<rparr>
                 | Rejected x \<Rightarrow> failure x,
                 [rq])))"

section \<open>The request handler\<close>

record response =
  status :: nat
  reply :: "jsstring option"

definition no_reply_gemini :: jsstring where
  "no_reply_gemini = [0x644, 0x627, 0x20, 0x631, 0x62F, 0x20, 0x645, 0x646, 0x20] @ js ''Gemini''"

definition no_reply_openai :: jsstring where
  "no_reply_openai = [0x644, 0x627, 0x20, 0x631, 0x62F, 0x20, 0x645, 0x646, 0x20] @ js ''OpenAI''"

definition no_reply_any :: jsstring where
  "no_reply_any = [0x644, 0x627, 0x20, 0x631, 0x62F]"

definition processing_error :: jsstring where
  "processing_error =
     [0x26A0, 0xFE0F, 0x20, 0x62D, 0x62F, 0x62B, 0x20, 0x62E, 0x637, 0x623, 0x20, 0x641, 0x64A,
      0x20, 0x627, 0x644, 0x645, 0x639, 0x627, 0x644, 0x62C, 0x629]"

text \<open>The response of the \<^verbatim>\<open>catch\<close> block of \<^verbatim>\<open>POST\<close>.\<close>

definition error_response :: response where
  "error_response = \<lparr>status = 500, reply = Some processing_error\<rparr>"

definition ok_response :: "jsstring option \<Rightarrow> response" where
  "ok_response r = \<lparr>status = 200, reply = r\<rparr>"

text \<open>The variables of the loop over the results.\<close>

record slots =
  gemT :: jsstring
  openT :: jsstring
  gemOk :: bool
  openOk :: bool

definition or_empty :: "jsstring option \<Rightarrow> jsstring" where
  "or_empty v = (case v of None \<Rightarrow> [] | Some s \<Rightarrow> s)"

text \<open>The body of the loop for one result \<open>r\<close>.\<close>

definition classify :: "slots \<Rightarrow> ProviderResult \<Rightarrow> slots" where
  "classify s r =
     (if truthy_opt (r_raw r) \<and> truthy_opt (get_prop (r_raw r) (js ''candidates''))
      then s\<lparr>gemOk := r_ok r, gemT := or_empty (r_text r)\<rparr>
      else if truthy_opt (r_raw r) \<and> truthy_opt (get_prop (r_raw r) (js ''choices''))
      then s\<lparr>openOk := r_ok r, openT := or_empty (r_text r)\<rparr>
      else if truthy_str (r_text r) \<and> 0 < length (or_empty (r_text r)) \<and> openT s = []
      then (if gemT s = [] then s\<lparr>gemT := or_empty (r_text r), gemOk := r_ok r\<rparr>
            else s\<lparr>openT := or_empty (r_text r), openOk := r_ok r\<rparr>)
      else s)"

text \<open>
  The fields of the request body, with the defaults of the destructuring pattern: a
  default applies when the field is undefined.
\<close>

definition body_prompt :: "json \<Rightarrow> json option" where
  "body_prompt b = get_prop (Some b) (js ''prompt'')"

definition body_mode :: "json \<Rightarrow> json" where
  "body_mode b = (case get_prop (Some b) (js ''mode'') of None \<Rightarrow> JStr (js ''fusion'') | Some v \<Rightarrow> v)"

definition body_model :: "json \<Rightarrow> json" where
  "body_model b = (case get_prop (Some b) (js ''model'') of None \<Rightarrow> JStr (js ''both'') | Some v \<Rightarrow> v)"

text \<open>
  The first half of \<^verbatim>\<open>POST\<close>: the calls that are made for the requested model, in the
  order in which they are started, and the loop over their results.
\<close>

definition collect :: "env \<Rightarrow> network \<Rightarrow> json \<Rightarrow> slots \<times> request list" where
  "collect e net b =
     (let prompt = body_prompt b;
          model = body_model b;
          wantGemini = (model = JStr (js ''both'') \<or> model = JStr (js ''gemini''));
          (rs1, t1) = (if wantGemini
                       then (let (r, t) = callGemini e net prompt in ([r], t))
                       else ([], []));
          (rs2, t2) = (if model = JStr (js ''openai'')
                          \<or> (model = JStr (js ''both'') \<and> truthy_str (OPENAI_API_KEY e))
                       then (let (r, t) = callOpenAI e net prompt in ([r], t))
                       else ([], []));
          results = rs1 @ rs2
      in (foldl classify \<lparr>gemT = [], openT = [], gemOk = False, openOk = False\<rparr> results,
          t1 @ t2))"

text \<open>
  \<^verbatim>\<open>POST(req)\<close>. The argument is what \<^verbatim>\<open>await req.json()\<close> gives: \<open>None\<close> when it
  throws on a body that is not JSON. Destructuring \<^verbatim>\<open>null\<close> throws as well. Every throw
  inside the \<^verbatim>\<open>try\<close> block ends in the response of the \<^verbatim>\<open>catch\<close> block.
\<close>

definition POST :: "env \<Rightarrow> network \<Rightarrow> json option \<Rightarrow> response \<times> request list" where
  "POST e net body =
     (case body of
        None \<Rightarrow> (error_response, [])
      | Some b \<Rightarrow>
          if b = JNull then (error_response, [])
          else
            (let (s, t) = collect e net b
             in if body_mode b = JStr (js ''single'') then
                  (if body_model b = JStr (js ''gemini'')
                   then (ok_response (Some (if gemT s \<noteq> [] then gemT s else no_reply_gemini)), t)
                   else if body_model b = JStr (js ''openai'')
                   then (ok_response (Some (if openT s \<noteq> [] then openT s else no_reply_openai)), t)
                   else (ok_response (Some (if openT s \<noteq> [] then openT s
                                            else if gemT s \<noteq> [] then gemT s
                                            else no_reply_any)), t))
                else if truthy_str (OPENAI_API_KEY e) \<and> (gemT s \<noteq> [] \<or> openT s \<noteq> []) then
                  (let (synth, t') = synthesizeWithOpenAI e net (gemT s) (openT s) (body_prompt b)
                   in if r_ok synth then (ok_response (r_text synth), t @ t')
                      else (ok_response (Some (heuristicMerge (gemT s) (openT s))), t @ t'))
                else (ok_response (Some (heuristicMerge (gemT s) (openT s))), t)))"

section \<open>Stubs for the examples\<close>

text \<open>A Gemini payload of the expected shape, carrying the text \<open>t\<close>.\<close>

definition gemini_payload :: "jsstring \<Rightarrow> json" where
  "gemini_payload t =
     JObj [(js ''candidates'',
            JArr [JObj [(js ''content'',
                         JObj [(js ''parts'', JArr [JObj [(js ''text'', JStr t)]])])]])]"

text \<open>A chat-completions payload of the expected shape, with the message content \<open>c\<close>.\<close>

definition chat_payload :: "json \<Rightarrow> json" where
  "chat_payload c =
     JObj [(js ''choices'', JArr [JObj [(js ''message'', JObj [(js ''content'', c)])]])]"

text \<open>A network that answers every Gemini request with \<open>g\<close> and every chat request with \<open>c\<close>.\<close>

definition stub_network :: "outcome \<Rightarrow> outcome \<Rightarrow> network" where
  "stub_network g c rq = (case rq of GeminiGenerate p k \<Rightarrow> g | ChatCompletion m k \<Rightarrow> c)"

section \<open>Properties of \<^verbatim>\<open>JSON.parse\<close> and \<^verbatim>\<open>JSON.stringify\<close>\<close>

declare parse_chars.simps [simp del]
declare parse_value.simps [simp del]
declare parse_elements.simps [simp del]
declare parse_members.simps [simp del]

subsection \<open>Every number text parses\<close>


















subsection \<open>Every quoted string parses to itself\<close>












subsection \<open>Steps of the parser\<close>



lemma skip_ws_nl: "skip_ws (0x0A # s) = skip_ws s"
  by (simp add: skip_ws_def is_ws_def)

lemma skip_ws_sp: "skip_ws (0x20 # s) = skip_ws s"
  by (simp add: skip_ws_def is_ws_def)

























subsection \<open>The bound of the parser is never reached\<close>

text \<open>
  A successful parse consumes at least one code unit, so twice the length of the text
  bounds the depth of the calls.
\<close>

lemma skip_ws_length: "length (skip_ws s) \<le> length s"
  by (simp add: skip_ws_def length_dropWhile_le)

lemma skip_ws_Cons_length: "skip_ws s = c # r \<Longrightarrow> length r < length s"
  using skip_ws_length [of s] by simp

lemma parse_chars_consumes: "parse_chars s = Some (t, r) \<Longrightarrow> length r < length s"
proof (induction s arbitrary: t r rule: parse_chars.induct)
  case 1
  then show ?case by (simp add: parse_chars.simps)
next
  case (2 c cs)
  show ?case
  proof (cases "c = 0x22")
    case True
    with "2.prems" show ?thesis by (simp add: parse_chars.simps)
  next
    case q: False
    show ?thesis
    proof (cases "c = 0x5C")
      case True
      from "2.prems" q True obtain x r0 where cs: "cs = x # r0"
        by (cases cs) (auto simp: parse_chars.simps)
      show ?thesis
      proof (cases "x = 0x75")
        case u: True
        from "2.prems" q True cs u obtain a b c' d r' w t' where
          r0: "r0 = a # b # c' # d # r'" and h: "hex4 a b c' d = Some w"
          and p: "parse_chars r' = Some (t', r)"
          by (auto simp: parse_chars.simps split: list.splits option.splits)
        from "2.IH"(1) [OF q True cs u r0 refl refl refl h p] show ?thesis by (simp add: cs r0)
      next
        case u: False
        from "2.prems" q True cs u obtain w t' where
          h: "unescape x = Some w" and p: "parse_chars r0 = Some (t', r)"
          by (auto simp: parse_chars.simps split: option.splits)
        from "2.IH"(2) [OF q True cs u h p] show ?thesis by (simp add: cs)
      qed
    next
      case False
      from "2.prems" q False obtain t' where c: "\<not> c < 0x20" and p: "parse_chars cs = Some (t', r)"
        by (auto simp: parse_chars.simps split: if_splits)
      from "2.IH"(3) [OF q False c p] show ?thesis by simp
    qed
  qed
qed

lemma parse_fraction_length: "parse_fraction s = Some (fp, r) \<Longrightarrow> length r \<le> length s"
  using length_dropWhile_le [of is_digit "tl s"]
  by (cases s) (auto simp: parse_fraction_def Let_def split: if_splits)

lemma parse_exponent_length: "parse_exponent s = Some (x, r) \<Longrightarrow> length r \<le> length s"
proof (cases s)
  case Nil
  assume "parse_exponent s = Some (x, r)"
  with Nil show ?thesis by (simp add: parse_exponent_def)
next
  case (Cons c cs)
  assume p: "parse_exponent s = Some (x, r)"
  have a: "length (dropWhile is_digit u) \<le> length u" for u
    by (rule length_dropWhile_le)
  show ?thesis
    using p a [of cs] a [of "tl cs"] unfolding Cons
    by (cases cs) (auto simp: parse_exponent_def Let_def split: if_splits)
qed

lemma dropWhile_shorter: "takeWhile P xs \<noteq> [] \<Longrightarrow> length (dropWhile P xs) < length xs"
  by (cases xs) (auto simp: le_imp_less_Suc length_dropWhile_le split: if_splits)

lemma number_tail_consumes:
  assumes "takeWhile is_digit u \<noteq> []"
    and "parse_fraction (dropWhile is_digit u) = Some (fp, s2)"
    and "parse_exponent s2 = Some (x, r)"
  shows "length r < length u"
  using dropWhile_shorter [OF assms(1)] parse_fraction_length [OF assms(2)]
    parse_exponent_length [OF assms(3)]
  by simp

lemma parse_number_consumes: "parse_number s = Some (v, r) \<Longrightarrow> length r < length s"
proof (cases s)
  case Nil
  assume "parse_number s = Some (v, r)"
  with Nil show ?thesis by (simp add: parse_number_def)
next
  case (Cons c t)
  assume p: "parse_number s = Some (v, r)"
  show ?thesis
  proof (cases "c = 0x2D")
    case True
    from p obtain fp s2 x where "takeWhile is_digit t \<noteq> []"
      "parse_fraction (dropWhile is_digit t) = Some (fp, s2)" "parse_exponent s2 = Some (x, r)"
      unfolding Cons parse_number_def using True
      by (auto simp: Let_def split: if_splits option.splits prod.splits)
    from number_tail_consumes [OF this] show ?thesis by (simp add: Cons)
  next
    case False
    from p obtain fp s2 x where "takeWhile is_digit (c # t) \<noteq> []"
      "parse_fraction (dropWhile is_digit (c # t)) = Some (fp, s2)" "parse_exponent s2 = Some (x, r)"
      unfolding Cons parse_number_def using False
      by (auto simp: Let_def split: if_splits option.splits prod.splits)
    from number_tail_consumes [OF this] show ?thesis by (simp add: Cons)
  qed
qed

lemma skip_ws_Cons_le: "skip_ws s = c # r \<Longrightarrow> Suc (length r) \<le> length s"
  using skip_ws_length [of s] by simp

lemma parse_consumes:
  "parse_value n s = Some (v, r) \<Longrightarrow> length r < length s"
  "parse_elements n acc s = Some (v, r) \<Longrightarrow> length r < length s"
  "parse_members n macc s = Some (v, r) \<Longrightarrow> length r < length s"
proof (induction n s and n acc s and n macc s arbitrary: v r and v r and v r
    rule: parse_value_parse_elements_parse_members.induct)
  case (1 s)
  then show ?case by (simp add: parse_value.simps)
next
  case (2 n s)
  from "2.prems" obtain c r0 where sk: "skip_ws s = c # r0"
    by (cases "skip_ws s") (auto simp: parse_value.simps)
  note l0 = skip_ws_Cons_le [OF sk]
  consider (obj) "c = 0x7B" | (arr) "c \<noteq> 0x7B" "c = 0x5B" | (str) "c \<noteq> 0x7B" "c \<noteq> 0x5B" "c = 0x22"
    | (other) "c \<noteq> 0x7B" "c \<noteq> 0x5B" "c \<noteq> 0x22"
    by blast
  then show ?case
  proof cases
    case obj
    from "2.prems" sk obj obtain c2 r2 where sk2: "skip_ws r0 = c2 # r2"
      by (cases "skip_ws r0") (auto simp: parse_value.simps)
    note l2 = skip_ws_Cons_le [OF sk2]
    show ?thesis
    proof (cases "c2 = 0x7D")
      case True
      with "2.prems" sk obj sk2 l0 l2 show ?thesis by (simp add: parse_value.simps)
    next
      case False
      with "2.prems" sk obj sk2 have "parse_members n [] (c2 # r2) = Some (v, r)"
        by (simp add: parse_value.simps)
      from "2.IH"(1) [OF sk obj sk2 False this] l0 l2 show ?thesis by simp
    qed
  next
    case arr
    from "2.prems" sk arr obtain c2 r2 where sk2: "skip_ws r0 = c2 # r2"
      by (cases "skip_ws r0") (auto simp: parse_value.simps)
    note l2 = skip_ws_Cons_le [OF sk2]
    show ?thesis
    proof (cases "c2 = 0x5D")
      case True
      with "2.prems" sk arr sk2 l0 l2 show ?thesis by (simp add: parse_value.simps)
    next
      case False
      with "2.prems" sk arr sk2 have "parse_elements n [] (c2 # r2) = Some (v, r)"
        by (simp add: parse_value.simps)
      from "2.IH"(2) [OF sk arr sk2 False this] l0 l2 show ?thesis by simp
    qed
  next
    case str
    with "2.prems" sk obtain t where "parse_chars r0 = Some (t, r)"
      by (auto simp: parse_value.simps)
    from parse_chars_consumes [OF this] l0 show ?thesis by simp
  next
    case other
    have "length (drop k (c # r0)) \<le> length r0" if "0 < k" for k
      using that by (cases k) auto
    with "2.prems" sk other l0 show ?thesis
      by (auto simp: parse_value.simps split: if_splits dest!: parse_number_consumes)
  qed
next
  case (3 acc s)
  then show ?case by (simp add: parse_elements.simps)
next
  case (4 n acc s)
  from "4.prems" obtain v1 r1 where pv: "parse_value n s = Some (v1, r1)"
    by (auto simp: parse_elements.simps split: option.splits)
  note l1 = "4.IH"(1) [OF pv]
  from "4.prems" pv obtain c r2 where sk: "skip_ws r1 = c # r2"
    by (cases "skip_ws r1") (auto simp: parse_elements.simps)
  note l2 = skip_ws_Cons_le [OF sk]
  show ?case
  proof (cases "c = 0x2C")
    case True
    with "4.prems" pv sk have "parse_elements n (acc @ [v1]) r2 = Some (v, r)"
      by (simp add: parse_elements.simps)
    from "4.IH"(2) [OF pv refl sk True this] l1 l2 show ?thesis by simp
  next
    case False
    with "4.prems" pv sk l1 l2 show ?thesis
      by (auto simp: parse_elements.simps split: if_splits)
  qed
next
  case (5 macc s)
  then show ?case by (simp add: parse_members.simps)
next
  case (6 n macc s)
  from "6.prems" obtain q r0 where sk: "skip_ws s = q # r0"
    by (cases "skip_ws s") (auto simp: parse_members.simps)
  from "6.prems" sk have q: "\<not> q \<noteq> 0x22"
    by (auto simp: parse_members.simps split: if_splits)
  from "6.prems" sk q obtain k r1 where pc: "parse_chars r0 = Some (k, r1)"
    by (auto simp: parse_members.simps split: option.splits)
  from "6.prems" sk q pc obtain c r2 where sk1: "skip_ws r1 = c # r2"
    by (cases "skip_ws r1") (auto simp: parse_members.simps)
  from "6.prems" sk q pc sk1 have c: "\<not> c \<noteq> 0x3A"
    by (auto simp: parse_members.simps split: if_splits)
  from "6.prems" sk q pc sk1 c obtain v1 r3 where pv: "parse_value n r2 = Some (v1, r3)"
    by (auto simp: parse_members.simps split: option.splits)
  from "6.prems" sk q pc sk1 c pv obtain c' r4 where sk3: "skip_ws r3 = c' # r4"
    by (cases "skip_ws r3") (auto simp: parse_members.simps)
  note ls = skip_ws_Cons_le [OF sk] parse_chars_consumes [OF pc] skip_ws_Cons_le [OF sk1]
    "6.IH"(1) [OF sk q pc refl sk1 c pv] skip_ws_Cons_le [OF sk3]
  show ?case
  proof (cases "c' = 0x2C")
    case True
    with "6.prems" sk q pc sk1 c pv sk3 have "parse_members n (obj_put k v1 macc) r4 = Some (v, r)"
      by (simp add: parse_members.simps)
    from "6.IH"(2) [OF sk q pc refl sk1 c pv refl sk3 True this] ls show ?thesis by simp
  next
    case False
    with "6.prems" sk q pc sk1 c pv sk3 ls show ?thesis
      by (auto simp: parse_members.simps split: if_splits)
  qed
qed

lemma fuel_irrelevant:
  "2 * length s < n \<Longrightarrow> n \<le> m \<Longrightarrow> parse_value m s = parse_value n s"
  "2 * length s + 1 < n \<Longrightarrow> n \<le> m \<Longrightarrow> parse_elements m acc s = parse_elements n acc s"
  "2 * length s + 1 < n \<Longrightarrow> n \<le> m \<Longrightarrow> parse_members m macc s = parse_members n macc s"
proof (induction n s and n acc s and n macc s arbitrary: m and m and m
    rule: parse_value_parse_elements_parse_members.induct)
  case (1 s)
  then show ?case by simp
next
  case (2 n s)
  from "2.prems"(2) obtain m' where m: "m = Suc m'" "n \<le> m'" by (cases m) auto
  have e1: "parse_members m' [] (c2 # r2) = parse_members n [] (c2 # r2)"
    if "skip_ws s = c # r0" "c = 0x7B" "skip_ws r0 = c2 # r2" "c2 \<noteq> 0x7D" for c r0 c2 r2
  proof -
    have "2 * length (c2 # r2) + 1 < n"
      using skip_ws_Cons_le [OF that(1)] skip_ws_length [of r0] that(3) "2.prems"(1) by simp
    from "2.IH"(1) [OF that this m(2)] show ?thesis .
  qed
  have e2: "parse_elements m' [] (c2 # r2) = parse_elements n [] (c2 # r2)"
    if "skip_ws s = c # r0" "c \<noteq> 0x7B" "c = 0x5B" "skip_ws r0 = c2 # r2" "c2 \<noteq> 0x5D" for c r0 c2 r2
  proof -
    have "2 * length (c2 # r2) + 1 < n"
      using skip_ws_Cons_le [OF that(1)] skip_ws_length [of r0] that(4) "2.prems"(1) by simp
    from "2.IH"(2) [OF that this m(2)] show ?thesis .
  qed
  show ?case
  proof (cases "skip_ws s")
    case Nil
    then show ?thesis by (simp add: m(1) parse_value.simps)
  next
    case (Cons c r0)
    note sk = this
    show ?thesis
    proof (cases "c = 0x7B")
      case True
      show ?thesis
      proof (cases "skip_ws r0")
        case Nil
        with sk True show ?thesis by (simp add: m(1) parse_value.simps)
      next
        case (Cons c2 r2)
        show ?thesis
        proof (cases "c2 = 0x7D")
          case True
          with sk \<open>c = 0x7B\<close> Cons show ?thesis by (simp add: m(1) parse_value.simps)
        next
          case False
          from e1 [OF sk True Cons False] sk True Cons False show ?thesis
            by (simp add: m(1) parse_value.simps)
        qed
      qed
    next
      case nb: False
      show ?thesis
      proof (cases "c = 0x5B")
        case True
        show ?thesis
        proof (cases "skip_ws r0")
          case Nil
          with sk nb True show ?thesis by (simp add: m(1) parse_value.simps)
        next
          case (Cons c2 r2)
          show ?thesis
          proof (cases "c2 = 0x5D")
            case True
            with sk nb \<open>c = 0x5B\<close> Cons show ?thesis by (simp add: m(1) parse_value.simps)
          next
            case False
            from e2 [OF sk nb True Cons False] sk nb True Cons False show ?thesis
              by (simp add: m(1) parse_value.simps)
          qed
        qed
      next
        case False
        with sk nb show ?thesis by (simp add: m(1) parse_value.simps)
      qed
    qed
  qed
next
  case (3 acc s)
  then show ?case by simp
next
  case (4 n acc s)
  from "4.prems"(2) obtain m' where m: "m = Suc m'" "n \<le> m'" by (cases m) auto
  have b: "2 * length s < n" using "4.prems"(1) by simp
  have e1: "parse_value m' s = parse_value n s"
    by (rule "4.IH"(1) [OF b m(2)])
  have e2: "parse_elements m' (acc @ [v1]) r2 = parse_elements n (acc @ [v1]) r2"
    if "parse_value n s = Some (v1, r1)" "skip_ws r1 = c # r2" "c = 0x2C" for v1 r1 c r2
  proof -
    have "2 * length r2 + 1 < n"
      using parse_consumes(1) [OF that(1)] skip_ws_Cons_le [OF that(2)] "4.prems"(1) by simp
    from "4.IH"(2) [OF that(1) refl that(2,3) this m(2)] show ?thesis .
  qed
  show ?case
  proof (cases "parse_value n s")
    case None
    then show ?thesis by (simp add: m(1) parse_elements.simps e1)
  next
    case (Some p)
    obtain v1 r1 where p: "p = (v1, r1)" by (cases p)
    note pv = Some [unfolded p]
    show ?thesis
    proof (cases "skip_ws r1")
      case Nil
      with pv show ?thesis by (simp add: m(1) parse_elements.simps e1)
    next
      case (Cons c r2)
      show ?thesis
      proof (cases "c = 0x2C")
        case True
        from e2 [OF pv Cons True] pv Cons True show ?thesis
          by (simp add: m(1) parse_elements.simps e1)
      next
        case False
        with pv Cons show ?thesis by (simp add: m(1) parse_elements.simps e1)
      qed
    qed
  qed
next
  case (5 macc s)
  then show ?case by simp
next
  case (6 n macc s)
  from "6.prems"(2) obtain m' where m: "m = Suc m'" "n \<le> m'" by (cases m) auto
  have e1: "parse_value m' r2 = parse_value n r2"
    if "skip_ws s = q # r0" "\<not> q \<noteq> 0x22" "parse_chars r0 = Some (k, r1)" "skip_ws r1 = c # r2"
      "\<not> c \<noteq> 0x3A" for q r0 k r1 c r2
  proof -
    have "2 * length r2 < n"
      using skip_ws_Cons_le [OF that(1)] parse_chars_consumes [OF that(3)]
        skip_ws_Cons_le [OF that(4)] "6.prems"(1) by simp
    from "6.IH"(1) [OF that(1,2,3) refl that(4,5) this m(2)] show ?thesis .
  qed
  have e2: "parse_members m' (obj_put k v1 macc) r4 = parse_members n (obj_put k v1 macc) r4"
    if "skip_ws s = q # r0" "\<not> q \<noteq> 0x22" "parse_chars r0 = Some (k, r1)" "skip_ws r1 = c # r2"
      "\<not> c \<noteq> 0x3A" "parse_value n r2 = Some (v1, r3)" "skip_ws r3 = c' # r4" "c' = 0x2C"
    for q r0 k r1 c r2 v1 r3 c' r4
  proof -
    have "2 * length r4 + 1 < n"
      using skip_ws_Cons_le [OF that(1)] parse_chars_consumes [OF that(3)]
        skip_ws_Cons_le [OF that(4)] parse_consumes(1) [OF that(6)] skip_ws_Cons_le [OF that(7)]
        "6.prems"(1) by simp
    from "6.IH"(2) [OF that(1,2,3) refl that(4,5,6) refl that(7,8) this m(2)] show ?thesis .
  qed
  show ?case
  proof (cases "skip_ws s")
    case Nil
    then show ?thesis by (simp add: m(1) parse_members.simps)
  next
    case (Cons q r0)
    note sk = this
    show ?thesis
    proof (cases "q \<noteq> 0x22")
      case True
      with sk show ?thesis by (simp add: m(1) parse_members.simps)
    next
      case q: False
      show ?thesis
      proof (cases "parse_chars r0")
        case None
        with sk q show ?thesis by (simp add: m(1) parse_members.simps)
      next
        case (Some p)
        obtain k r1 where p: "p = (k, r1)" by (cases p)
        note pc = Some [unfolded p]
        show ?thesis
        proof (cases "skip_ws r1")
          case Nil
          with sk q pc show ?thesis by (simp add: m(1) parse_members.simps)
        next
          case (Cons c r2)
          note sk1 = this
          show ?thesis
          proof (cases "c \<noteq> 0x3A")
            case True
            with sk q pc sk1 show ?thesis by (simp add: m(1) parse_members.simps)
          next
            case c: False
            note v = e1 [OF sk q pc sk1 c]
            show ?thesis
            proof (cases "parse_value n r2")
              case None
              with sk q pc sk1 c v show ?thesis by (simp add: m(1) parse_members.simps)
            next
              case (Some p')
              obtain v1 r3 where p': "p' = (v1, r3)" by (cases p')
              note pv = Some [unfolded p']
              show ?thesis
              proof (cases "skip_ws r3")
                case Nil
                with sk q pc sk1 c v pv show ?thesis by (simp add: m(1) parse_members.simps)
              next
                case (Cons c' r4)
                show ?thesis
                proof (cases "c' = 0x2C")
                  case True
                  from e2 [OF sk q pc sk1 c pv Cons True] sk q pc sk1 c v pv Cons True
                  show ?thesis by (simp add: m(1) parse_members.simps)
                next
                  case False
                  with sk q pc sk1 c v pv Cons show ?thesis
                    by (simp add: m(1) parse_members.simps)
                qed
              qed
            qed
          qed
        qed
      qed
    qed
  qed
qed

lemma JSON_parse_fuel:
  assumes "2 * length s + 2 \<le> n"
  shows "JSON_parse s = (case parse_value n s of None \<Rightarrow> None
                         | Some (v, r) \<Rightarrow> if skip_ws r = [] then Some v else None)"
  using fuel_irrelevant(1) [of s "2 * length s + 2" n] assms
  by (simp add: JSON_parse_def)

subsection \<open>A canonical number parses to itself\<close>














subsection \<open>Keys of objects\<close>

















subsection \<open>\<^verbatim>\<open>JSON.parse\<close> returns canonical values\<close>








subsection \<open>Parsing a serialized canonical value gives it back\<close>




section \<open>Properties of the heuristic merger\<close>

lemma extract_marker_absent:
  "\<not> includes_str (toUpperCase txt) m \<Longrightarrow> extract_marker txt p m = p"
  by (simp add: extract_marker_def)

lemma extractByMarker_absent:
  "\<not> has_marker txt \<Longrightarrow> extractByMarker txt p = p"
  by (simp add: has_marker_def extractByMarker_def markers_def extract_marker_absent)

lemma marker_merge_absent:
  assumes "\<not> has_marker geminiText" and "\<not> has_marker openaiText"
  shows "marker_merge geminiText openaiText = longest_wins geminiText openaiText"
  using assms by (simp add: marker_merge_def extractByMarker_absent)

lemma heuristicMerge_fallthrough:
  "JSON_parse geminiText = None \<or> JSON_parse openaiText = None \<Longrightarrow>
   heuristicMerge geminiText openaiText = marker_merge geminiText openaiText"
  by (auto simp: heuristicMerge_def split: option.splits)





text \<open>
  Claim C5. When no marker occurs in either reply (the test of the source: the upper-cased
  reply does not include the marker) and the replies do not both parse as JSON, the
  result shows both replies under their headings, with \<open>(no reply)\<close> in place of an
  empty reply, and ends with the longer reply; on equal lengths that is the OpenAI reply.
\<close>

theorem longest_wins_fallback:
  assumes "\<not> has_marker geminiText" and "\<not> has_marker openaiText"
    and "JSON_parse geminiText = None \<or> JSON_parse openaiText = None"
  shows "heuristicMerge geminiText openaiText =
           js ''--Merged result (heuristic)--\<newline>\<newline>[From Gemini]\<newline>''
           @ (if geminiText = [] then js ''(no reply)'' else geminiText)
           @ js ''\<newline>\<newline>[From OpenAI]\<newline>''
           @ (if openaiText = [] then js ''(no reply)'' else openaiText)
           @ js ''\<newline>\<newline>[Preferred]\<newline>''
           @ (if length geminiText > length openaiText then geminiText else openaiText)
           @ js ''\<newline>''"
proof -
  have "heuristicMerge geminiText openaiText = longest_wins geminiText openaiText"
    using assms by (simp add: heuristicMerge_fallthrough marker_merge_absent)
  then show ?thesis
    by (simp add: longest_wins_def no_reply_def Let_def)
qed

theorem longest_wins_fallback_witness:
  "\<not> has_marker (js ''hello'') \<and> \<not> has_marker (js ''hello, world'')
   \<and> (JSON_parse (js ''hello'') = None \<or> JSON_parse (js ''hello, world'') = None)
   \<and> heuristicMerge (js ''hello'') (js ''hello, world'') =
        js ''--Merged result (heuristic)--\<newline>\<newline>[From Gemini]\<newline>hello\<newline>\<newline>[From OpenAI]\<newline>hello, world\<newline>\<newline>[Preferred]\<newline>hello, world\<newline>''"
proof -
  have h1: "\<not> has_marker (js ''hello'')"
    by code_simp
  have h2: "\<not> has_marker (js ''hello, world'')"
    by code_simp
  have h3: "JSON_parse (js ''hello'') = None \<or> JSON_parse (js ''hello, world'') = None"
    by code_simp
  have c: "heuristicMerge (js ''hello'') (js ''hello, world'') =
        js ''--Merged result (heuristic)--\<newline>\<newline>[From Gemini]\<newline>hello\<newline>\<newline>[From OpenAI]\<newline>hello, world\<newline>\<newline>[Preferred]\<newline>hello, world\<newline>''"
    using longest_wins_fallback [OF h1 h2 h3] by (simp add: js_def)
  show ?thesis
    by (intro conjI h1 h2 h3 c)
qed

text \<open>
  Claim C4. The marker \<open>SCRIPT:\<close> is a part of the marker \<open>TRANSCRIPT:\<close>, so a reply whose
  only marker is \<open>TRANSCRIPT:\<close> passes the test for \<open>SCRIPT:\<close> as well: its trailing text is
  appended to the script bucket and to the general bucket, and the result has a Script
  section next to the Other section.
\<close>

theorem transcript_marker_also_fills_script:
  "heuristicMerge (js ''TRANSCRIPT: hello'') [] =
     js ''--Merged Result (heuristic)--\<newline>\<newline>== Script ==\<newline>\<newline>hello\<newline>\<newline>== Other ==\<newline>\<newline>hello\<newline>''"
  by code_simp

text \<open>
  Claim C10. A bare scalar literal parses as JSON, so the replies \<open>1\<close> and \<open>2\<close>, and the
  replies \<open>null\<close> and \<open>true\<close>, take the structured path: the result is the nested document
  with the two scalars under \<open>gemini\<close> and \<open>openai\<close>, not the result of the marker step.
\<close>

theorem scalar_literals_take_structured_path:
  "JSON_parse (js ''1'') = Some (JNum 1 0) \<and> JSON_parse (js ''2'') = Some (JNum 2 0)
   \<and> heuristicMerge (js ''1'') (js ''2'') =
       js ''{\<newline>  \"merged\": {\<newline>    \"gemini\": 1,\<newline>    \"openai\": 2\<newline>  }\<newline>}''
   \<and> heuristicMerge (js ''1'') (js ''2'') \<noteq> marker_merge (js ''1'') (js ''2'')
   \<and> JSON_parse (js ''null'') = Some JNull \<and> JSON_parse (js ''true'') = Some (JBool True)
   \<and> heuristicMerge (js ''null'') (js ''true'') =
       js ''{\<newline>  \"merged\": {\<newline>    \"gemini\": null,\<newline>    \"openai\": true\<newline>  }\<newline>}''
   \<and> heuristicMerge (js ''null'') (js ''true'') \<noteq> marker_merge (js ''null'') (js ''true'')"
  by code_simp

section \<open>Properties of the adapters and of the handler\<close>

lemma callOpenAI_without_key:
  "\<not> truthy_str (OPENAI_API_KEY e) \<Longrightarrow> callOpenAI e net prompt = (key_missing, [])"
  by (auto simp: callOpenAI_def truthy_str_def split: option.splits)

lemma synthesize_without_key:
  "\<not> truthy_str (OPENAI_API_KEY e) \<Longrightarrow>
   synthesizeWithOpenAI e net geminiText openaiText userPrompt = (key_missing, [])"
  by (auto simp: synthesizeWithOpenAI_def truthy_str_def split: option.splits)


lemma classify_key_missing: "classify s key_missing = s"
  by (simp add: classify_def key_missing_def failure_def truthy_opt_def truthy_str_def)

lemma callGemini_fallback:
  assumes "net (GeminiGenerate prompt (GEMINI_API_KEY e)) = Resolved raw"
    and "get_prop (Some raw) (js ''candidates'') = None"
  shows "fst (callGemini e net prompt)
           = \<lparr>r_ok = True, r_text = Some (JSON_stringify 0 raw), r_raw = Some raw, r_error = None\<rparr>"
  using assms
  by (simp add: callGemini_def Let_def first_def get_prop_def as_text_def truthy_str_def)

lemma POST_error_iff:
  "status (fst (POST e net body)) = 500 \<longleftrightarrow> body = None \<or> body = Some JNull"
  by (auto simp: POST_def error_response_def ok_response_def Let_def
      split: option.splits prod.splits if_splits)

text \<open>
  Claim C6. \<^verbatim>\<open>callOpenAI\<close> returns before any request when its key is missing
  (\<open>callOpenAI_without_key\<close>), but \<^verbatim>\<open>callGemini\<close> has no such test: without
  \<^verbatim>\<open>GEMINI_API_KEY\<close> it still sends its request, with no \<^verbatim>\<open>key\<close> parameter.
\<close>

theorem callGemini_calls_without_key:
  "snd (callGemini \<lparr>GEMINI_API_KEY = None, OPENAI_API_KEY = k\<rparr> net prompt)
     = [GeminiGenerate prompt None]"
  by (simp add: callGemini_def Let_def)

text \<open>
  Claim C7. \<^verbatim>\<open>callGemini\<close> falls back to the serialized payload when the reply field is
  missing (\<open>callGemini_fallback\<close>), but \<^verbatim>\<open>callOpenAI\<close> does not: on the payload \<^verbatim>\<open>{}\<close>
  it returns a success whose text is undefined.
\<close>

theorem callOpenAI_missing_content:
  "callOpenAI \<lparr>GEMINI_API_KEY = g, OPENAI_API_KEY = Some (js ''sk'')\<rparr>
       (\<lambda>rq. Resolved (JObj [])) prompt
     = (\<lparr>r_ok = True, r_text = None, r_raw = Some (JObj []), r_error = None\<rparr>,
        [ChatCompletion (UserPrompt prompt) (js ''sk'')])"
  by (simp add: callOpenAI_def Let_def js_def get_prop_def first_def as_text_def)

text \<open>
  Claim C8. For every request body with mode \<open>single\<close> and model \<open>openai\<close>, whatever its
  prompt, when \<^verbatim>\<open>OPENAI_API_KEY\<close> is not configured the handler answers with status 200
  and the fixed placeholder for OpenAI, and sends no request at all.
\<close>

theorem single_openai_without_key:
  assumes "\<not> truthy_str (OPENAI_API_KEY e)"
    and "get_prop (Some b) (js ''mode'') = Some (JStr (js ''single''))"
    and "get_prop (Some b) (js ''model'') = Some (JStr (js ''openai''))"
  shows "POST e net (Some b) = (\<lparr>status = 200, reply = Some no_reply_openai\<rparr>, [])"
proof -
  have nn: "b \<noteq> JNull"
    using assms(2) by (auto simp: get_prop_def)
  have m: "body_model b = JStr (js ''openai'')"
    using assms(3) by (simp add: body_model_def)
  have md: "body_mode b = JStr (js ''single'')"
    using assms(2) by (simp add: body_mode_def)
  have ne: "js ''openai'' \<noteq> js ''both''" "js ''openai'' \<noteq> js ''gemini''"
    by (simp_all add: js_def)
  have c: "collect e net b = (\<lparr>gemT = [], openT = [], gemOk = False, openOk = False\<rparr>, [])"
    using assms(1) by (simp add: collect_def m ne callOpenAI_without_key classify_key_missing)
  show ?thesis
    by (simp add: POST_def nn c md m ne ok_response_def)
qed

theorem single_openai_without_key_witness:
  "\<not> truthy_str (OPENAI_API_KEY \<lparr>GEMINI_API_KEY = Some (js ''gk''), OPENAI_API_KEY = None\<rparr>)
   \<and> get_prop (Some (JObj [(js ''prompt'', JStr (js ''q'')), (js ''mode'', JStr (js ''single'')),
                            (js ''model'', JStr (js ''openai''))])) (js ''mode'')
       = Some (JStr (js ''single''))
   \<and> get_prop (Some (JObj [(js ''prompt'', JStr (js ''q'')), (js ''mode'', JStr (js ''single'')),
                            (js ''model'', JStr (js ''openai''))])) (js ''model'')
       = Some (JStr (js ''openai''))
   \<and> POST \<lparr>GEMINI_API_KEY = Some (js ''gk''), OPENAI_API_KEY = None\<rparr>
          (stub_network (Resolved (gemini_payload (js ''hi''))) (Resolved (JObj [])))
          (Some (JObj [(js ''prompt'', JStr (js ''q'')), (js ''mode'', JStr (js ''single'')),
                       (js ''model'', JStr (js ''openai''))]))
       = (\<lparr>status = 200, reply = Some no_reply_openai\<rparr>, [])"
proof -
  let ?e = "\<lparr>GEMINI_API_KEY = Some (js ''gk''), OPENAI_API_KEY = None\<rparr>"
  let ?b = "JObj [(js ''prompt'', JStr (js ''q'')), (js ''mode'', JStr (js ''single'')),
                  (js ''model'', JStr (js ''openai''))]"
  have h1: "\<not> truthy_str (OPENAI_API_KEY ?e)"
    by (simp add: truthy_str_def)
  have h2: "get_prop (Some ?b) (js ''mode'') = Some (JStr (js ''single''))"
    by (simp add: get_prop_def js_def)
  have h3: "get_prop (Some ?b) (js ''model'') = Some (JStr (js ''openai''))"
    by (simp add: get_prop_def js_def)
  show ?thesis
    by (intro conjI h1 h2 h3 single_openai_without_key [OF h1 h2 h3])
qed



text \<open>
  Claim C2. The status is 500 exactly when the body is not JSON or is \<^verbatim>\<open>null\<close>
  (\<open>POST_error_iff\<close>). But the handler answers 200 without a reply string when the
  synthesizer's call succeeds with a payload whose message content is \<^verbatim>\<open>null\<close>:
  \<^verbatim>\<open>synthesizeWithOpenAI\<close> then returns a success whose text is not a string, and the
  fusion branch returns that text as the reply.
\<close>

theorem synthesis_without_content_gives_no_reply:
  "POST \<lparr>GEMINI_API_KEY = Some (js ''gk''), OPENAI_API_KEY = Some (js ''sk'')\<rparr>
      (stub_network (Resolved (gemini_payload (js ''hi''))) (Resolved (chat_payload JNull)))
      (Some (JObj [(js ''prompt'', JStr (js ''q''))]))
     = (\<lparr>status = 200, reply = None\<rparr>,
        [GeminiGenerate (Some (JStr (js ''q''))) (Some (js ''gk'')),
         ChatCompletion (UserPrompt (Some (JStr (js ''q'')))) (js ''sk''),
         ChatCompletion (SynthPrompt (js ''hi'') [] (Some (JStr (js ''q'')))) (js ''sk'')])"
  by code_simp

theorem synthesis_without_content_gives_no_reply_witness:
  "status (fst (POST \<lparr>GEMINI_API_KEY = Some (js ''gk''), OPENAI_API_KEY = Some (js ''sk'')\<rparr>
      (stub_network (Resolved (gemini_payload (js ''hi''))) (Resolved (chat_payload JNull)))
      (Some (JObj [(js ''prompt'', JStr (js ''q''))])))) = 200
   \<and> reply (fst (POST \<lparr>GEMINI_API_KEY = Some (js ''gk''), OPENAI_API_KEY = Some (js ''sk'')\<rparr>
      (stub_network (Resolved (gemini_payload (js ''hi''))) (Resolved (chat_payload JNull)))
      (Some (JObj [(js ''prompt'', JStr (js ''q''))])))) = None"
  by (simp add: synthesis_without_content_gives_no_reply)

end
